theory Spec2Isabelle
  imports Complex_Main "HOL-Library.Multiset"
begin

section \<open>Text primitives of the Python runtime\<close>

text \<open>
  Python strings are modelled as lists of code points below 256. The predicates below are
  the parts of \<^verbatim>\<open>str.isspace\<close>, \<^verbatim>\<open>str.lower\<close>, \<^verbatim>\<open>str.upper\<close>,
  \<^verbatim>\<open>str.split\<close>, \<^verbatim>\<open>str.strip\<close> and the \<^verbatim>\<open>in\<close> operator that the
  repository uses.
\<close>

definition isspace :: "char \<Rightarrow> bool" where
  "isspace c = (c \<in> set [CHR 0x09, CHR 0x0A, CHR 0x0B, CHR 0x0C, CHR 0x0D,
                           CHR 0x1C, CHR 0x1D, CHR 0x1E, CHR 0x1F, CHR 0x20,
                           CHR 0x85, CHR 0xA0])"

definition char_lower :: "char \<Rightarrow> char" where
  "char_lower c =
     (let n = (of_char c :: nat)
      in if (65 \<le> n \<and> n \<le> 90) \<or> (192 \<le> n \<and> n \<le> 222 \<and> n \<noteq> 215)
         then char_of (n + 32) else c)"

definition lower :: "string \<Rightarrow> string" where
  "lower s = map char_lower s"

text \<open>\<^verbatim>\<open>upper\<close> is only ever applied to the ASCII tags \<^verbatim>\<open>global\<close> and \<^verbatim>\<open>user\<close>.\<close>

definition char_upper :: "char \<Rightarrow> char" where
  "char_upper c =
     (let n = (of_char c :: nat)
      in if 97 \<le> n \<and> n \<le> 122 then char_of (n - 32) else c)"

definition upper :: "string \<Rightarrow> string" where
  "upper s = map char_upper s"

text \<open>\<^verbatim>\<open>t.startswith(q)\<close> and the substring test \<^verbatim>\<open>q in t\<close>.\<close>

fun startswith :: "string \<Rightarrow> string \<Rightarrow> bool" where
  "startswith t [] = True"
| "startswith [] (c # cs) = False"
| "startswith (x # xs) (c # cs) = (x = c \<and> startswith xs cs)"

fun str_in :: "string \<Rightarrow> string \<Rightarrow> bool" where
  "str_in q [] = (q = [])"
| "str_in q (x # xs) = (startswith (x # xs) q \<or> str_in q xs)"

text \<open>\<^verbatim>\<open>s.split()\<close>: the maximal runs of non-whitespace characters, in order.\<close>

fun split_ws :: "string \<Rightarrow> string \<Rightarrow> string list" where
  "split_ws cur [] = (if cur = [] then [] else [cur])"
| "split_ws cur (c # cs) =
     (if isspace c then (if cur = [] then [] else [cur]) @ split_ws [] cs
      else split_ws (cur @ [c]) cs)"

definition str_split :: "string \<Rightarrow> string list" where
  "str_split s = split_ws [] s"

text \<open>\<^verbatim>\<open>s.split(sep)\<close> for a one-character separator: empty pieces are kept.\<close>

fun split_on :: "char \<Rightarrow> string \<Rightarrow> string \<Rightarrow> string list" where
  "split_on sep cur [] = [cur]"
| "split_on sep cur (c # cs) =
     (if c = sep then cur # split_on sep [] cs else split_on sep (cur @ [c]) cs)"

definition strip :: "string \<Rightarrow> string" where
  "strip s = rev (dropWhile isspace (rev (dropWhile isspace s)))"

text \<open>\<^verbatim>\<open>s.replace(c, r)\<close> for a one-character pattern, and \<^verbatim>\<open>sep.join(parts)\<close>.\<close>

definition replace_char :: "char \<Rightarrow> string \<Rightarrow> string \<Rightarrow> string" where
  "replace_char c r s = concat (map (\<lambda>x. if x = c then r else [x]) s)"

fun join :: "string \<Rightarrow> string list \<Rightarrow> string" where
  "join sep [] = []"
| "join sep [p] = p"
| "join sep (p # q # ps) = p @ sep @ join sep (q # ps)"

text \<open>Decimal rendering of a list index, as an f-string prints it.\<close>

fun str_of_nat :: "nat \<Rightarrow> string" where
  "str_of_nat n =
     (if n < 10 then [char_of (48 + n)]
      else str_of_nat (n div 10) @ [char_of (48 + n mod 10)])"

text \<open>Python slices \<^verbatim>\<open>xs[i:]\<close> and \<^verbatim>\<open>xs[:k]\<close>: a negative bound counts from the end.\<close>

definition slice_from :: "'a list \<Rightarrow> int \<Rightarrow> 'a list" where
  "slice_from xs i =
     (if i < 0 then drop (nat (int (length xs) + i)) xs else drop (nat i) xs)"

definition slice_to :: "'a list \<Rightarrow> int \<Rightarrow> 'a list" where
  "slice_to xs k =
     (if k < 0 then take (nat (int (length xs) + k)) xs else take (nat k) xs)"

section \<open>The record store (\<^verbatim>\<open>workflow/memory.py\<close>)\<close>

text \<open>
  The embedder is an injected function; \<open>None\<close> as its value stands for a call that
  raised. Scores and timestamps are Python floats, modelled as reals.
\<close>

type_synonym embedder = "string \<Rightarrow> real list option"

record turn =
  role :: string
  turn_text :: string
  turn_timestamp :: real

text \<open>An entry of \<^verbatim>\<open>self.vectors\<close>: the tuple (id, owner, text, embedding, timestamp).\<close>

type_synonym vector = "string \<times> string \<times> string \<times> real list option \<times> real"

record MemoryStore =
  embedding_fn :: "embedder option"
  embedding_dim :: "int option"
  conversations :: "string \<rightharpoonup> turn list"
  profiles :: "string \<rightharpoonup> (string \<rightharpoonup> string)"
  vectors :: "vector list"

text \<open>
  A result of \<^verbatim>\<open>query_memory\<close>: the dict with the keys id, owner, text, score and
  timestamp. \<^verbatim>\<open>RAGManager.retrieve\<close> adds the key source to it.
\<close>

record hit =
  hit_id :: string
  owner :: string
  hit_text :: string
  score :: real
  timestamp :: real

record rag_hit = hit +
  source :: string

definition MemoryStore_init :: "embedder option \<Rightarrow> int option \<Rightarrow> MemoryStore" where
  "MemoryStore_init ef ed =
     \<lparr>embedding_fn = ef, embedding_dim = ed, conversations = Map.empty,
      profiles = Map.empty, vectors = []\<rparr>"

definition cosine_similarity :: "real list \<Rightarrow> real list \<Rightarrow> real" where
  "cosine_similarity a b =
     (if a = [] \<or> b = [] \<or> length a \<noteq> length b then 0
      else let dot = (\<Sum>(x, y) \<leftarrow> zip a b. x * y);
               na = sqrt (\<Sum>x \<leftarrow> a. x * x);
               nb = sqrt (\<Sum>y \<leftarrow> b. y * y)
           in if na = 0 \<or> nb = 0 then 0 else dot / (na * nb))"

text \<open>
  The embedding that \<^verbatim>\<open>add_conversation_turn\<close> stores: none without an embedder or when
  the call raised, none when a truthy \<^verbatim>\<open>embedding_dim\<close> differs from the length.
\<close>

definition stored_embedding :: "MemoryStore \<Rightarrow> string \<Rightarrow> real list option" where
  "stored_embedding self txt =
     (case embedding_fn self of
        None \<Rightarrow> None
      | Some f \<Rightarrow>
          (case f txt of
             None \<Rightarrow> None
           | Some emb \<Rightarrow>
               (case embedding_dim self of
                  None \<Rightarrow> Some emb
                | Some d \<Rightarrow> if d \<noteq> 0 \<and> int (length emb) \<noteq> d then None else Some emb)))"

definition add_conversation_turn ::
  "MemoryStore \<Rightarrow> string \<Rightarrow> string \<Rightarrow> string \<Rightarrow> real option \<Rightarrow> real \<Rightarrow> MemoryStore" where
  "add_conversation_turn self convo_id rl txt ts_arg now =
     (let ts = (case ts_arg of None \<Rightarrow> now | Some t \<Rightarrow> t);
          msgs = (case conversations self convo_id of None \<Rightarrow> [] | Some ms \<Rightarrow> ms)
                   @ [\<lparr>role = rl, turn_text = txt, turn_timestamp = ts\<rparr>];
          emb = stored_embedding self txt
      in self\<lparr>conversations := (conversations self)(convo_id \<mapsto> msgs),
              vectors := vectors self
                @ [(''turn:'' @ convo_id @ '':'' @ str_of_nat (length msgs - 1),
                    convo_id, txt, emb, ts)]\<rparr>)"

definition get_conversation :: "MemoryStore \<Rightarrow> string \<Rightarrow> int option \<Rightarrow> turn list" where
  "get_conversation self convo_id limit =
     (let msgs = (case conversations self convo_id of None \<Rightarrow> [] | Some ms \<Rightarrow> ms)
      in case limit of
           None \<Rightarrow> msgs
         | Some n \<Rightarrow> if n \<noteq> 0 then slice_from msgs (- n) else msgs)"

definition add_user_profile ::
  "MemoryStore \<Rightarrow> string \<Rightarrow> (string \<rightharpoonup> string) \<Rightarrow> MemoryStore" where
  "add_user_profile self user_id profile =
     self\<lparr>profiles := (profiles self)
        (user_id \<mapsto> (case profiles self user_id of None \<Rightarrow> Map.empty | Some p \<Rightarrow> p) ++ profile)\<rparr>"

text \<open>The embedding of the query: none without an embedder or when the call raised.\<close>

definition query_embedding :: "MemoryStore \<Rightarrow> string \<Rightarrow> real list option" where
  "query_embedding self query =
     (case embedding_fn self of None \<Rightarrow> None | Some f \<Rightarrow> f query)"

text \<open>The \<^verbatim>\<open>else\<close> branch of the scoring: substring test, then word overlap.\<close>

definition heuristic_score :: "string \<Rightarrow> string \<Rightarrow> real" where
  "heuristic_score query txt =
     (let q = lower query; t = lower txt
      in if str_in q t then 1
         else let common = length (filter (\<lambda>w. str_in w t) (remdups (str_split q)))
              in real common / real (max 1 (length (str_split q))) * (1 / 10))"

text \<open>A list is truthy when it is present and not empty.\<close>

fun truthy :: "'a list option \<Rightarrow> bool" where
  "truthy None = False"
| "truthy (Some xs) = (xs \<noteq> [])"

definition record_score :: "string \<Rightarrow> real list option \<Rightarrow> string \<Rightarrow> real list option \<Rightarrow> real" where
  "record_score query query_emb txt emb =
     (if truthy query_emb \<and> truthy emb then cosine_similarity (the query_emb) (the emb)
      else heuristic_score query txt)"

text \<open>The loop over \<^verbatim>\<open>self.vectors\<close>, collecting the hits with a positive score.\<close>

fun scan_vectors :: "string \<Rightarrow> real list option \<Rightarrow> string option \<Rightarrow> vector list \<Rightarrow> hit list" where
  "scan_vectors query query_emb own [] = []"
| "scan_vectors query query_emb own ((vid, owner_id, txt, emb, ts) # rest) =
     (if truthy own \<and> own \<noteq> Some owner_id then scan_vectors query query_emb own rest
      else let sc = record_score query query_emb txt emb
           in if sc > 0
              then \<lparr>hit_id = vid, owner = owner_id, hit_text = txt, score = sc,
                    timestamp = ts\<rparr> # scan_vectors query query_emb own rest
              else scan_vectors query query_emb own rest)"

text \<open>
  \<^verbatim>\<open>sort(key=score, reverse=True)\<close>: Python's sort is stable, also when reversed, so
  it is the insertion sort on the negated key.
\<close>

definition sort_by_score_desc :: "'a hit_scheme list \<Rightarrow> 'a hit_scheme list" where
  "sort_by_score_desc rs = sort_key (\<lambda>r. - score r) rs"

definition query_memory :: "MemoryStore \<Rightarrow> string \<Rightarrow> string option \<Rightarrow> int \<Rightarrow> hit list" where
  "query_memory self query own top_k =
     slice_to (sort_by_score_desc (scan_vectors query (query_embedding self query) own (vectors self)))
              top_k"

section \<open>The retrieval manager (\<^verbatim>\<open>workflow/rag.py\<close>)\<close>

record RAGManager =
  global_store :: MemoryStore
  user_stores :: "string \<rightharpoonup> MemoryStore"

definition RAGManager_init :: "embedder option \<Rightarrow> int option \<Rightarrow> RAGManager" where
  "RAGManager_init ef ed =
     \<lparr>global_store = MemoryStore_init ef ed, user_stores = Map.empty\<rparr>"

text \<open>
  \<^verbatim>\<open>_get_user_store\<close> returns the store of the user and the manager, which has a fresh
  store under \<open>user_id\<close> when there was none.
\<close>

definition get_user_store :: "RAGManager \<Rightarrow> string \<Rightarrow> MemoryStore \<times> RAGManager" where
  "get_user_store self user_id =
     (case user_stores self user_id of
        Some st \<Rightarrow> (st, self)
      | None \<Rightarrow>
          (let st = MemoryStore_init (embedding_fn (global_store self))
                                     (embedding_dim (global_store self))
           in (st, self\<lparr>user_stores := (user_stores self)(user_id \<mapsto> st)\<rparr>)))"

definition add_global_document ::
  "RAGManager \<Rightarrow> string \<Rightarrow> string \<Rightarrow> real option \<Rightarrow> real \<Rightarrow> RAGManager" where
  "add_global_document self doc_id txt ts_arg now =
     self\<lparr>global_store :=
       add_conversation_turn (global_store self) ''global'' ''system''
         (doc_id @ '': '' @ txt) ts_arg now\<rparr>"

definition add_user_document ::
  "RAGManager \<Rightarrow> string \<Rightarrow> string \<Rightarrow> string \<Rightarrow> real option \<Rightarrow> real \<Rightarrow> RAGManager" where
  "add_user_document self user_id doc_id txt ts_arg now =
     (case get_user_store self user_id of
        (store, self') \<Rightarrow>
          self'\<lparr>user_stores := (user_stores self')
            (user_id \<mapsto> add_conversation_turn store (''user:'' @ user_id) ''system''
                            (doc_id @ '': '' @ txt) ts_arg now)\<rparr>)"

definition tag :: "string \<Rightarrow> hit \<Rightarrow> rag_hit" where
  "tag src r =
     \<lparr>hit_id = hit_id r, owner = owner r, hit_text = hit_text r, score = score r,
      timestamp = timestamp r, source = src\<rparr>"

text \<open>The de-duplication loop of \<^verbatim>\<open>retrieve\<close> over the sorted results.\<close>

fun merge_unique :: "string set \<Rightarrow> rag_hit list \<Rightarrow> rag_hit list" where
  "merge_unique seen_texts [] = []"
| "merge_unique seen_texts (r # rs) =
     (if hit_text r \<in> seen_texts then merge_unique seen_texts rs
      else r # merge_unique (insert (hit_text r) seen_texts) rs)"

text \<open>The list \<^verbatim>\<open>results\<close> before sorting, and the manager after the store lookup.\<close>

definition collect_hits ::
  "RAGManager \<Rightarrow> string \<Rightarrow> string option \<Rightarrow> int \<Rightarrow> int \<Rightarrow> rag_hit list \<times> RAGManager" where
  "collect_hits self query user_id top_k_global top_k_user =
     (let ghits = query_memory (global_store self) query (Some ''global'') top_k_global;
          results = map (tag ''global'') ghits
      in if truthy user_id
         then (case get_user_store self (the user_id) of
                 (store, self') \<Rightarrow>
                   (let uhits = query_memory store query (Some (''user:'' @ the user_id))
                                  top_k_user
                    in (results @ map (tag ''user'') uhits, self')))
         else (results, self))"

definition retrieve ::
  "RAGManager \<Rightarrow> string \<Rightarrow> string option \<Rightarrow> int \<Rightarrow> int \<Rightarrow> rag_hit list \<times> RAGManager" where
  "retrieve self query user_id top_k_global top_k_user =
     (case collect_hits self query user_id top_k_global top_k_user of
        (results, self') \<Rightarrow> (merge_unique {} (sort_by_score_desc results), self'))"

definition build_rag_context ::
  "RAGManager \<Rightarrow> string \<Rightarrow> string option \<Rightarrow> int \<Rightarrow> int \<Rightarrow> string \<times> RAGManager" where
  "build_rag_context self query user_id k_global k_user =
     (case retrieve self query user_id k_global k_user of
        (hits, self') \<Rightarrow>
          (if hits = [] then []
           else ''Relevant documents (RAG):'' @ [CHR 0x0A]
                @ join [CHR 0x0A]
                    (map (\<lambda>h. ''['' @ upper (source h) @ ''] '' @ hit_text h) hits),
           self'))"

section \<open>The planner (\<^verbatim>\<open>workflow/react.py\<close>)\<close>

definition is_sentence_end :: "char \<Rightarrow> bool" where
  "is_sentence_end c = (c \<in> set ''.?!'')"

text \<open>
  \<^verbatim>\<open>re.split(r"(?<=[\.\?\!])\s+", problem)\<close>: a whitespace run that starts right after
  one of \<^verbatim>\<open>. ? !\<close> is a separator. \<open>after_end\<close> says that the previous character
  is such a mark, \<open>in_sep\<close> that a separator is being consumed.
\<close>

fun re_split :: "bool \<Rightarrow> bool \<Rightarrow> string \<Rightarrow> string \<Rightarrow> string list" where
  "re_split after_end in_sep cur [] = [cur]"
| "re_split after_end in_sep cur (c # cs) =
     (if isspace c \<and> in_sep then re_split False True cur cs
      else if isspace c \<and> after_end then cur # re_split False True [] cs
      else re_split (is_sentence_end c) False (cur @ [c]) cs)"

definition split_sentences :: "string \<Rightarrow> string list" where
  "split_sentences problem = re_split False False [] problem"

text \<open>\<^verbatim>\<open>re.search(r"[0-9=+\-*/^()]+", s)\<close> finds a match when one character is in the class.\<close>

definition is_equation_char :: "char \<Rightarrow> bool" where
  "is_equation_char c = (c \<in> set ''0123456789=+-*/^()'')"

definition has_equation :: "string \<Rightarrow> bool" where
  "has_equation s = list_ex is_equation_char s"

text \<open>The loop over the sentences; \<open>steps\<close> is the list built so far.\<close>

fun decompose_loop :: "string list \<Rightarrow> string list \<Rightarrow> string list" where
  "decompose_loop steps [] = steps"
| "decompose_loop steps (s0 # rest) =
     (let s = strip s0
      in if s = [] then decompose_loop steps rest
         else if has_equation s then decompose_loop (steps @ [s]) rest
         else if CHR '','' \<in> set s
              then decompose_loop
                     (steps @ map strip (filter (\<lambda>p. strip p \<noteq> []) (split_on CHR '','' [] s)))
                     rest
              else decompose_loop (steps @ [s]) rest)"

definition decompose_problem :: "string \<Rightarrow> string \<Rightarrow> string list" where
  "decompose_problem problem rag_ctx =
     (let steps = decompose_loop [] (split_sentences problem)
      in if rag_ctx \<noteq> []
         then (''Consult relevant formulas and proofs: ''
                 @ replace_char (CHR 0x0A) '' | '' rag_ctx) # steps
         else steps)"

text \<open>
  The Verifier is the call \<^verbatim>\<open>MCP.sympy_eval(step)\<close>: an external capability with a state
  of its own. It answers \<open>Inr result\<close>, or \<open>Inl message\<close> when the call raised.
\<close>

type_synonym 'v verifier = "'v \<Rightarrow> string \<Rightarrow> (string + string) \<times> 'v"

datatype verification = Result string string | Error string string

record plan_step =
  step :: string
  verification :: "verification option"

record plan_out =
  out_problem :: string
  out_rag_context :: string
  out_plan :: "plan_step list"
  out_duration :: real

record ReActPlanner =
  rag :: RAGManager
  memory :: MemoryStore

definition ReActPlanner_init :: "embedder option \<Rightarrow> int option \<Rightarrow> ReActPlanner" where
  "ReActPlanner_init ef ed = \<lparr>rag = RAGManager_init ef ed, memory = MemoryStore_init ef ed\<rparr>"

text \<open>
  The verification loop of \<^verbatim>\<open>plan\<close>. It returns the steps, the state of the Verifier
  after the loop, and the expressions that were passed to the Verifier, in call order.
\<close>

fun verify_steps ::
  "'v verifier \<Rightarrow> bool \<Rightarrow> 'v \<Rightarrow> string list \<Rightarrow> plan_step list \<times> 'v \<times> string list" where
  "verify_steps sympy_eval verify vs [] = ([], vs, [])"
| "verify_steps sympy_eval verify vs (st # rest) =
     (if verify
      then (case sympy_eval vs st of
              (answer, vs') \<Rightarrow>
                (case verify_steps sympy_eval verify vs' rest of
                   (results, vs'', calls) \<Rightarrow>
                     (\<lparr>step = st,
                       verification =
                         Some (case answer of
                                 Inr sym_result \<Rightarrow> Result ''sympy'' sym_result
                               | Inl e \<Rightarrow> Error ''sympy'' e)\<rparr> # results,
                      vs'', st # calls)))
      else (case verify_steps sympy_eval verify vs rest of
              (results, vs', calls) \<Rightarrow>
                (\<lparr>step = st, verification = None\<rparr> # results, vs', calls)))"

text \<open>
  \<^verbatim>\<open>plan\<close>, with the two clock readings as arguments. It returns the plan, the planner
  (whose manager may have a new user store), the Verifier's state and the call log.
\<close>

definition plan ::
  "ReActPlanner \<Rightarrow> 'v verifier \<Rightarrow> 'v \<Rightarrow> string \<Rightarrow> string option \<Rightarrow> bool \<Rightarrow> real \<Rightarrow> real
     \<Rightarrow> plan_out \<times> ReActPlanner \<times> 'v \<times> string list" where
  "plan self sympy_eval vs problem user_id verify start finish =
     (case build_rag_context (rag self) problem user_id 3 3 of
        (rag_ctx, rag') \<Rightarrow>
          (case verify_steps sympy_eval verify vs (decompose_problem problem rag_ctx) of
             (results, vs', calls) \<Rightarrow>
               (\<lparr>out_problem = problem, out_rag_context = rag_ctx, out_plan = results,
                 out_duration = finish - start\<rparr>,
                self\<lparr>rag := rag'\<rparr>, vs', calls)))"

section \<open>Reference notions for the stated properties\<close>

text \<open>
  A store is filled by calls of \<^verbatim>\<open>add_conversation_turn\<close>. A call is the tuple of its
  arguments and of the clock reading; \<open>turns_of\<close> lists the turns that the calls for one
  owner create, in call order.
\<close>

type_synonym add_call = "string \<times> string \<times> string \<times> real option \<times> real"

fun add_turns :: "MemoryStore \<Rightarrow> add_call list \<Rightarrow> MemoryStore" where
  "add_turns self [] = self"
| "add_turns self ((convo_id, rl, txt, ts_arg, now) # calls) =
     add_turns (add_conversation_turn self convo_id rl txt ts_arg now) calls"

definition turn_of :: "add_call \<Rightarrow> turn" where
  "turn_of call =
     (case call of
        (convo_id, rl, txt, ts_arg, now) \<Rightarrow>
          \<lparr>role = rl, turn_text = txt,
           turn_timestamp = (case ts_arg of None \<Rightarrow> now | Some t \<Rightarrow> t)\<rparr>)"

definition turns_of :: "string \<Rightarrow> add_call list \<Rightarrow> turn list" where
  "turns_of convo_id calls = map turn_of (filter (\<lambda>call. fst call = convo_id) calls)"

definition history :: "MemoryStore \<Rightarrow> string \<Rightarrow> turn list" where
  "history self convo_id =
     (case conversations self convo_id of None \<Rightarrow> [] | Some ms \<Rightarrow> ms)"

definition demo_calls :: "add_call list" where
  "demo_calls =
     [(''s1'', ''user'', ''hi'', Some 1, 0),
      (''s2'', ''user'', ''other'', None, 5),
      (''s1'', ''assistant'', ''hello'', Some 2, 0)]"

text \<open>
  The hits of a query, described without the loop: the entries of \<^verbatim>\<open>self.vectors\<close>
  that pass the owner filter and score above 0, in insertion order, and their ranking.
\<close>

definition owner_matches :: "string option \<Rightarrow> vector \<Rightarrow> bool" where
  "owner_matches own v = (if truthy own then own = Some (fst (snd v)) else True)"

definition hit_of :: "string \<Rightarrow> real list option \<Rightarrow> vector \<Rightarrow> hit" where
  "hit_of query query_emb v =
     (case v of
        (vid, owner_id, txt, emb, ts) \<Rightarrow>
          \<lparr>hit_id = vid, owner = owner_id, hit_text = txt,
           score = record_score query query_emb txt emb, timestamp = ts\<rparr>)"

definition positive_hits :: "MemoryStore \<Rightarrow> string \<Rightarrow> string option \<Rightarrow> hit list" where
  "positive_hits self query own =
     filter (\<lambda>h. 0 < score h)
       (map (hit_of query (query_embedding self query))
          (filter (owner_matches own) (vectors self)))"

definition ranked_hits :: "MemoryStore \<Rightarrow> string \<Rightarrow> string option \<Rightarrow> hit list" where
  "ranked_hits self query own = sort_by_score_desc (positive_hits self query own)"

text \<open>The heuristic score as the specification words it, over distinct query words.\<close>

definition heuristic_score_spec :: "string \<Rightarrow> string \<Rightarrow> real" where
  "heuristic_score_spec query txt =
     (let q = lower query; t = lower txt
      in if str_in q t then 1
         else (1 / 10) * real (length (filter (\<lambda>w. str_in w t) (remdups (str_split q))))
                / real (length (remdups (str_split q))))"

definition chess_store :: MemoryStore where
  "chess_store =
     add_turns (MemoryStore_init None None)
       [(''s1'', ''user'', ''alice likes chess'', Some 1, 0),
        (''s1'', ''user'', ''alice likes tea'', Some 2, 0)]"

text \<open>
  An embedder that answers with one component for the text \<^verbatim>\<open>alice\<close> and with two
  components for every other text, and a store of dimension 2 filled through it.
\<close>

definition short_embedder :: embedder where
  "short_embedder t = (if t = ''alice'' then Some [1] else Some [1, 0])"

definition dim_store :: MemoryStore where
  "dim_store =
     add_turns (MemoryStore_init (Some short_embedder) (Some 2))
       [(''s1'', ''user'', ''alice likes chess'', Some 1, 0)]"

text \<open>
  The decomposition as the specification words it: every trimmed sentence that is not
  empty gives its steps, and the steps are concatenated in sentence order.
\<close>

definition sentence_steps :: "string \<Rightarrow> string list" where
  "sentence_steps s =
     (if has_equation s then [s]
      else if CHR '','' \<in> set s
           then filter (\<lambda>p. p \<noteq> []) (map strip (split_on CHR '','' [] s))
           else [s])"

definition decomposition_spec :: "string \<Rightarrow> string list" where
  "decomposition_spec problem =
     concat (map sentence_steps (filter (\<lambda>s. s \<noteq> []) (map strip (split_sentences problem))))"

definition rag_hint :: "string \<Rightarrow> string list" where
  "rag_hint rag_ctx =
     (if rag_ctx = [] then []
      else [''Consult relevant formulas and proofs: '' @ replace_char (CHR 0x0A) '' | '' rag_ctx])"

text \<open>
  The step texts that \<^verbatim>\<open>plan\<close> works on, the answers of the Verifier when it is
  called on a list of steps in order, and the entry that \<^verbatim>\<open>plan\<close> records for an answer.
\<close>

definition planned_steps :: "ReActPlanner \<Rightarrow> string \<Rightarrow> string option \<Rightarrow> string list" where
  "planned_steps self problem user_id =
     decompose_problem problem (fst (build_rag_context (rag self) problem user_id 3 3))"

fun responses :: "'v verifier \<Rightarrow> 'v \<Rightarrow> string list \<Rightarrow> (string + string) list" where
  "responses sympy_eval vs [] = []"
| "responses sympy_eval vs (st # rest) =
     (case sympy_eval vs st of (answer, vs') \<Rightarrow> answer # responses sympy_eval vs' rest)"

definition recorded :: "string + string \<Rightarrow> verification option" where
  "recorded answer =
     Some (case answer of Inr r \<Rightarrow> Result ''sympy'' r | Inl e \<Rightarrow> Error ''sympy'' e)"

text \<open>A Verifier that counts its calls and fails on the step \<^verbatim>\<open>Find area\<close>.\<close>

definition counting_verifier :: "nat verifier" where
  "counting_verifier n st =
     (if st = ''Find area'' then Inl ''cannot parse'' else Inr ''ok'', Suc n)"

definition silent_verifier :: "unit verifier" where
  "silent_verifier u st = (Inr [], u)"

fun final_state :: "'v verifier \<Rightarrow> 'v \<Rightarrow> string list \<Rightarrow> 'v" where
  "final_state sympy_eval vs [] = vs"
| "final_state sympy_eval vs (st # rest) = final_state sympy_eval (snd (sympy_eval vs st)) rest"

definition empty_planner :: ReActPlanner where
  "empty_planner = ReActPlanner_init None None"

text \<open>
  The per-user store that \<^verbatim>\<open>_get_user_store\<close> creates, and the user id under which
  \<^verbatim>\<open>retrieve\<close> looks a store up: a user id that is present and not empty.
\<close>

definition fresh_user_store :: "RAGManager \<Rightarrow> MemoryStore" where
  "fresh_user_store self =
     MemoryStore_init (embedding_fn (global_store self)) (embedding_dim (global_store self))"

definition new_user :: "RAGManager \<Rightarrow> string option \<Rightarrow> bool" where
  "new_user self user_id = (truthy user_id \<and> user_stores self (the user_id) = None)"

definition alice_manager :: RAGManager where
  "alice_manager =
     add_user_document
       (add_global_document (RAGManager_init None None) ''pythag'' ''a^2+b^2=c^2'' (Some 1) 0)
       ''alice'' ''pythag'' ''a^2+b^2=c^2'' (Some 2) 0"

definition alice_store :: MemoryStore where
  "alice_store =
     add_conversation_turn (MemoryStore_init None None) ''user:alice'' ''system''
       ''pythag: a^2+b^2=c^2'' (Some 2) 0"

text \<open>
  A manager with four global documents that all contain the word \<^verbatim>\<open>cat\<close>, and a user
  document with the id and the text of the fourth.
\<close>

definition four_manager :: RAGManager where
  "four_manager =
     add_user_document
       (add_global_document
          (add_global_document
             (add_global_document
                (add_global_document (RAGManager_init None None) ''d1'' ''cat one'' (Some 1) 0)
                ''d2'' ''cat two'' (Some 2) 0)
             ''d3'' ''cat three'' (Some 3) 0)
          ''d4'' ''cat four'' (Some 4) 0)
       ''alice'' ''d4'' ''cat four'' (Some 5) 0"

text \<open>
  The manager that the code reaches when the embedder raised while the global document
  and the first user document were added, and answered \<^verbatim>\<open>[1.0]\<close> when a second user
  document of the same text was added: records of equal text with different embeddings.
\<close>

definition unit_embedder :: embedder where
  "unit_embedder t = Some [1]"

definition flaky_store :: MemoryStore where
  "flaky_store =
     \<lparr>embedding_fn = Some unit_embedder, embedding_dim = None,
      conversations =
        [''user:alice'' \<mapsto>
           [\<lparr>role = ''system'', turn_text = ''d: cat'', turn_timestamp = 2\<rparr>,
            \<lparr>role = ''system'', turn_text = ''d: cat'', turn_timestamp = 3\<rparr>]],
      profiles = Map.empty,
      vectors =
        [(''turn:user:alice:0'', ''user:alice'', ''d: cat'', None, 2),
         (''turn:user:alice:1'', ''user:alice'', ''d: cat'', Some [1], 3)]\<rparr>"

definition flaky_manager :: RAGManager where
  "flaky_manager =
     \<lparr>global_store =
        \<lparr>embedding_fn = Some unit_embedder, embedding_dim = None,
         conversations =
           [''global'' \<mapsto> [\<lparr>role = ''system'', turn_text = ''d: cat'', turn_timestamp = 1\<rparr>]],
         profiles = Map.empty,
         vectors = [(''turn:global:0'', ''global'', ''d: cat'', None, 1)]\<rparr>,
      user_stores = [''alice'' \<mapsto> flaky_store]\<rparr>"

text \<open>The two hit lists that \<^verbatim>\<open>retrieve\<close> merges.\<close>

definition global_hits :: "RAGManager \<Rightarrow> string \<Rightarrow> int \<Rightarrow> hit list" where
  "global_hits self query kg = query_memory (global_store self) query (Some ''global'') kg"

definition user_hits :: "MemoryStore \<Rightarrow> string \<Rightarrow> string \<Rightarrow> int \<Rightarrow> hit list" where
  "user_hits ustore uid query ku = query_memory ustore query (Some (''user:'' @ uid)) ku"

definition four_store :: MemoryStore where
  "four_store =
     add_conversation_turn (MemoryStore_init None None) ''user:alice'' ''system''
       ''d4: cat four'' (Some 5) 0"

section \<open>Verified properties\<close>

subsection \<open>Conversation history\<close>

lemma history_add:
  "history (add_conversation_turn self c rl txt ts_arg now) c' =
     (if c' = c then history self c @ [turn_of (c, rl, txt, ts_arg, now)] else history self c')"
  by (simp add: history_def add_conversation_turn_def turn_of_def Let_def)

lemma history_add_turns:
  "history (add_turns self calls) c = history self c @ turns_of c calls"
proof (induction calls arbitrary: self)
  case Nil
  show ?case by (simp add: turns_of_def)
next
  case (Cons call calls)
  obtain c' rl tx ts_arg now where call: "call = (c', rl, tx, ts_arg, now)"
    by (cases call) auto
  show ?case
    by (simp add: call Cons.IH history_add turns_of_def)
qed

lemma history_init: "history (MemoryStore_init ef ed) c = []"
  by (simp add: history_def MemoryStore_init_def)

lemma get_conversation_None: "get_conversation self c None = history self c"
  by (simp add: get_conversation_def history_def)

lemma get_conversation_zero: "get_conversation self c (Some 0) = history self c"
  by (simp add: get_conversation_def history_def)

lemma slice_from_last:
  assumes "0 < n"
  shows "slice_from xs (- n) = drop (length xs - nat n) xs"
proof -
  have "nat (int (length xs) + - n) = length xs - nat n"
    using assms by linarith
  then show ?thesis using assms by (simp add: slice_from_def)
qed

lemma get_conversation_pos:
  "0 < n \<Longrightarrow>
     get_conversation self c (Some n) = drop (length (history self c) - nat n) (history self c)"
  by (simp add: get_conversation_def history_def slice_from_last Let_def)

lemma slice_from_Nil: "slice_from [] i = []"
  by (simp add: slice_from_def)

lemma get_conversation_empty:
  "history self c = [] \<Longrightarrow> get_conversation self c limit = []"
  by (cases limit) (auto simp: get_conversation_def history_def slice_from_Nil split: option.splits)

lemma turns_of_absent: "c \<notin> fst ` set calls \<Longrightarrow> turns_of c calls = []"
  by (auto simp: turns_of_def filter_empty_conv)

text \<open>
  Claim C9, as the code has it. For a store filled by \<open>calls\<close>, \<^verbatim>\<open>get_conversation\<close>
  without a limit returns every turn of the owner in insertion order; with a positive
  limit \<open>n\<close> it returns the last \<open>n\<close> of them (all of them when there are fewer), in the
  same order; with the limit 0 it returns every turn, because the guard
  \<^verbatim>\<open>if limit\<close> takes 0 for an absent limit; and for an owner without turns it
  returns the empty list, whatever the limit.
\<close>

theorem get_conversation_recent:
  "get_conversation (add_turns (MemoryStore_init ef ed) calls) c None = turns_of c calls
   \<and> get_conversation (add_turns (MemoryStore_init ef ed) calls) c (Some 0) = turns_of c calls
   \<and> (0 < n \<longrightarrow>
        get_conversation (add_turns (MemoryStore_init ef ed) calls) c (Some n)
          = drop (length (turns_of c calls) - nat n) (turns_of c calls))
   \<and> (c \<notin> fst ` set calls \<longrightarrow>
        get_conversation (add_turns (MemoryStore_init ef ed) calls) c limit = [])"
proof -
  have h: "history (add_turns (MemoryStore_init ef ed) calls) c = turns_of c calls"
    by (simp add: history_add_turns history_init)
  show ?thesis
    using h by (simp add: get_conversation_None get_conversation_zero get_conversation_pos
        get_conversation_empty turns_of_absent)
qed

theorem get_conversation_recent_witness:
  "get_conversation (add_turns (MemoryStore_init None None) demo_calls) ''s1'' (Some 1)
     = [\<lparr>role = ''assistant'', turn_text = ''hello'', turn_timestamp = 2\<rparr>]
   \<and> get_conversation (add_turns (MemoryStore_init None None) demo_calls) ''s3'' (Some 1) = []"
  using get_conversation_recent [of None None demo_calls "''s1''" 1 "Some 1"]
    get_conversation_recent [of None None demo_calls "''s3''" 1 "Some 1"]
  by (simp add: demo_calls_def turns_of_def turn_of_def)

text \<open>
  The claim as stated fails at the limit 0: the most recent 0 turns are no turns, and the
  code returns both turns of the owner.
\<close>

theorem get_conversation_zero_counterexample:
  "get_conversation (add_turns (MemoryStore_init None None) demo_calls) ''s1'' (Some 0)
     = [\<lparr>role = ''user'', turn_text = ''hi'', turn_timestamp = 1\<rparr>,
        \<lparr>role = ''assistant'', turn_text = ''hello'', turn_timestamp = 2\<rparr>]"
  by (simp add: demo_calls_def get_conversation_def add_conversation_turn_def
      MemoryStore_init_def Let_def)

subsection \<open>Ranking of the hits\<close>

lemma scan_vectors_eq:
  "scan_vectors query qe own vs =
     filter (\<lambda>h. 0 < score h) (map (hit_of query qe) (filter (owner_matches own) vs))"
proof (induction vs)
  case Nil
  show ?case by simp
next
  case (Cons v vs)
  obtain vid owner_id tx emb ts where v: "v = (vid, owner_id, tx, emb, ts)"
    by (cases v) auto
  show ?case
    by (simp add: v Cons.IH owner_matches_def hit_of_def Let_def)
qed

lemma query_memory_ranked:
  "query_memory self query own top_k = slice_to (ranked_hits self query own) top_k"
  by (simp add: query_memory_def ranked_hits_def positive_hits_def scan_vectors_eq)

lemma sort_by_score_desc_sorted:
  "sorted_wrt (\<lambda>a b. score b \<le> score a) (sort_by_score_desc rs)"
proof -
  have "sorted (map (\<lambda>r. - score r) (sort_key (\<lambda>r. - score r) rs))"
    by (rule sorted_sort_key)
  then show ?thesis
    by (simp add: sort_by_score_desc_def sorted_map)
qed

lemma sort_by_score_desc_stable:
  "filter (\<lambda>h. score h = s) (sort_by_score_desc rs) = filter (\<lambda>h. score h = s) rs"
  using sort_key_stable [of "\<lambda>r. - score r" "- s" rs]
  by (simp add: sort_by_score_desc_def)

lemma sort_by_score_desc_mset: "mset (sort_by_score_desc rs) = mset rs"
  by (simp add: sort_by_score_desc_def)

lemma sort_by_score_desc_set: "set (sort_by_score_desc rs) = set rs"
  by (simp add: sort_by_score_desc_def)

lemma sort_by_score_desc_length: "length (sort_by_score_desc rs) = length rs"
  by (simp add: sort_by_score_desc_def)

text \<open>
  Claim C5. For a top_k that is not negative, \<^verbatim>\<open>query_memory\<close> returns the first
  top_k elements of the ranking of the hits. The ranking holds exactly the records that
  pass the owner filter and score above 0, each once; its scores never increase along
  the list; records of equal score stand in insertion order; and no record with a score
  of 0 or below is in it.
\<close>

theorem query_memory_top_k:
  assumes "0 \<le> top_k"
  shows "query_memory self query own top_k = take (nat top_k) (ranked_hits self query own)
    \<and> mset (ranked_hits self query own) = mset (positive_hits self query own)
    \<and> sorted_wrt (\<lambda>a b. score b \<le> score a) (ranked_hits self query own)
    \<and> (\<forall>s. filter (\<lambda>h. score h = s) (ranked_hits self query own)
             = filter (\<lambda>h. score h = s) (positive_hits self query own))
    \<and> (\<forall>h \<in> set (ranked_hits self query own). 0 < score h)"
proof -
  have "query_memory self query own top_k = take (nat top_k) (ranked_hits self query own)"
    using assms by (simp add: query_memory_ranked slice_to_def)
  moreover have "\<forall>h \<in> set (ranked_hits self query own). 0 < score h"
    by (simp add: ranked_hits_def sort_by_score_desc_set positive_hits_def)
  ultimately show ?thesis
    by (simp add: ranked_hits_def sort_by_score_desc_mset sort_by_score_desc_sorted
        sort_by_score_desc_stable)
qed

lemma str_of_nat_0: "str_of_nat 0 = ''0''"
  by code_simp

lemma str_of_nat_1: "str_of_nat (Suc 0) = ''1''"
  by code_simp

lemma chess_vectors:
  "vectors chess_store =
     [(''turn:s1:0'', ''s1'', ''alice likes chess'', None, 1),
      (''turn:s1:1'', ''s1'', ''alice likes tea'', None, 2)]"
  by (simp add: chess_store_def add_conversation_turn_def MemoryStore_init_def
      stored_embedding_def Let_def str_of_nat_0 str_of_nat_1 del: str_of_nat.simps)

lemma chess_query_embedding: "query_embedding chess_store q = None"
  by (simp add: chess_store_def add_conversation_turn_def MemoryStore_init_def
      query_embedding_def Let_def)

lemma heuristic_alice_chess: "heuristic_score ''alice'' ''alice likes chess'' = 1"
  by code_simp

lemma heuristic_alice_tea: "heuristic_score ''alice'' ''alice likes tea'' = 1"
  by code_simp

lemma chess_ranked:
  "ranked_hits chess_store ''alice'' None =
     [\<lparr>hit_id = ''turn:s1:0'', owner = ''s1'', hit_text = ''alice likes chess'', score = 1,
       timestamp = 1\<rparr>,
      \<lparr>hit_id = ''turn:s1:1'', owner = ''s1'', hit_text = ''alice likes tea'', score = 1,
       timestamp = 2\<rparr>]"
  by (simp add: ranked_hits_def positive_hits_def chess_vectors chess_query_embedding
      owner_matches_def hit_of_def record_score_def heuristic_alice_chess heuristic_alice_tea
      sort_by_score_desc_def)

theorem query_memory_top_k_witness:
  "(0::int) \<le> 1
   \<and> query_memory chess_store ''alice'' None 1 =
       [\<lparr>hit_id = ''turn:s1:0'', owner = ''s1'', hit_text = ''alice likes chess'', score = 1,
         timestamp = 1\<rparr>]"
  using query_memory_top_k [of 1 chess_store "''alice''" None]
  by (simp add: chess_ranked)

subsection \<open>A negative top_k\<close>

lemma query_memory_negative:
  assumes "top_k < 0"
  shows "query_memory self query own top_k =
     take (length (ranked_hits self query own) - nat (- top_k)) (ranked_hits self query own)"
proof -
  have "nat (int (length (ranked_hits self query own)) + top_k)
      = length (ranked_hits self query own) - nat (- top_k)"
    using assms by linarith
  then show ?thesis
    using assms by (simp add: query_memory_ranked slice_to_def)
qed

lemma ranked_hits_full:
  "query_memory self query own (int (length (vectors self))) = ranked_hits self query own"
proof -
  have "length (ranked_hits self query own) \<le> length (vectors self)"
    unfolding ranked_hits_def positive_hits_def sort_by_score_desc_length
    by (metis (no_types, lifting) length_filter_le length_map order_trans)
  then show ?thesis
    by (simp add: query_memory_ranked slice_to_def)
qed

text \<open>
  Claim C3, as the code has it. A negative top_k is the bound of the Python slice
  \<^verbatim>\<open>results[:top_k]\<close>: the query returns the ranked hits without their last
  \<open>- top_k\<close> elements, where the ranked hits are what a query with a top_k as large as
  the store returns. The function has no failure branch, so nothing is raised.
\<close>

theorem query_memory_negative_top_k:
  assumes "top_k < 0"
  shows "query_memory self query own top_k =
     take (length (query_memory self query own (int (length (vectors self)))) - nat (- top_k))
       (query_memory self query own (int (length (vectors self))))"
  using assms by (simp add: ranked_hits_full query_memory_negative)

lemma chess_full:
  "query_memory chess_store ''alice'' None 2 = ranked_hits chess_store ''alice'' None"
  using ranked_hits_full [of chess_store "''alice''" None] by (simp add: chess_vectors)

theorem query_memory_negative_top_k_witness:
  "(-1::int) < 0
   \<and> query_memory chess_store ''alice'' None (-1) =
       [\<lparr>hit_id = ''turn:s1:0'', owner = ''s1'', hit_text = ''alice likes chess'', score = 1,
         timestamp = 1\<rparr>]"
  using query_memory_negative_top_k [of "-1" chess_store "''alice''" None]
  by (simp add: chess_vectors chess_full chess_ranked)

text \<open>
  The claim as stated fails: with two hits and top_k = -1 the result is not empty.
\<close>

theorem query_memory_negative_counterexample:
  "query_memory chess_store ''alice'' None (-1) \<noteq> []"
  by (simp add: query_memory_negative chess_ranked)

subsection \<open>Heuristic scoring\<close>

lemma count_distinct_present:
  "length (filter P (remdups ws)) = card {w \<in> set ws. P w}"
proof -
  have "distinct (filter P (remdups ws))"
    by simp
  then have "card (set (filter P (remdups ws))) = length (filter P (remdups ws))"
    by (rule distinct_card)
  moreover have "set (filter P (remdups ws)) = {w \<in> set ws. P w}"
    by auto
  ultimately show ?thesis by simp
qed

lemma record_score_fallback:
  "\<not> (truthy query_emb \<and> truthy emb) \<Longrightarrow>
     record_score query query_emb t emb = heuristic_score query t"
  by (auto simp: record_score_def)

lemma heuristic_score_distinct:
  assumes "distinct (str_split (lower query))" and "str_split (lower query) \<noteq> []"
  shows "heuristic_score query t = heuristic_score_spec query t"
proof -
  have r: "remdups (str_split (lower query)) = str_split (lower query)"
    using assms(1) by (rule distinct_remdups_id)
  have m: "max 1 (length (str_split (lower query))) = length (str_split (lower query))"
    using assms(2) by (cases "str_split (lower query)") auto
  show ?thesis
    unfolding heuristic_score_def heuristic_score_spec_def Let_def r m by simp
qed

text \<open>
  Claim C2, as the code has it. When the query embedding or the record embedding is
  absent or empty, the score is 1 if the lowercase query is a substring of the lowercase
  text; otherwise it is 0.1 times the number of distinct query words that are substrings
  of the lowercase text, divided by the number of all query words, counted with
  repetition, and at least 1. For a query whose words are pairwise distinct, and which
  has a word, this is the value the specification gives.
\<close>

theorem record_score_heuristic:
  assumes "\<not> truthy query_emb \<or> \<not> truthy emb"
  shows "record_score query query_emb t emb =
      (if str_in (lower query) (lower t) then 1
       else (1 / 10) * real (card {w \<in> set (str_split (lower query)). str_in w (lower t)})
              / real (max 1 (length (str_split (lower query)))))
    \<and> (distinct (str_split (lower query)) \<and> str_split (lower query) \<noteq> [] \<longrightarrow>
         record_score query query_emb t emb = heuristic_score_spec query t)"
proof -
  have fb: "record_score query query_emb t emb = heuristic_score query t"
    using assms by (auto simp: record_score_fallback)
  have "heuristic_score query t =
      (if str_in (lower query) (lower t) then 1
       else (1 / 10) * real (card {w \<in> set (str_split (lower query)). str_in w (lower t)})
              / real (max 1 (length (str_split (lower query)))))"
    unfolding heuristic_score_def Let_def count_distinct_present by simp
  moreover have "distinct (str_split (lower query)) \<and> str_split (lower query) \<noteq> [] \<longrightarrow>
         heuristic_score query t = heuristic_score_spec query t"
    using heuristic_score_distinct by blast
  ultimately show ?thesis
    unfolding fb by blast
qed

lemma split_alice_bob: "str_split (lower ''Alice Bob'') = [''alice'', ''bob'']"
  by code_simp

lemma spec_alice_bob: "heuristic_score_spec ''Alice Bob'' ''bob'' = 1 / 20"
  by code_simp

theorem record_score_heuristic_witness:
  "\<not> truthy (None :: real list option)
   \<and> record_score ''Alice Bob'' None ''bob'' (Some [1]) = 1 / 20"
  using record_score_heuristic [of None "Some [1]" "''Alice Bob''" "''bob''"]
  by (simp add: split_alice_bob spec_alice_bob)

lemma heuristic_the_the_cat: "heuristic_score ''the the cat'' ''cat'' = 1 / 30"
  by code_simp

lemma spec_the_the_cat: "heuristic_score_spec ''the the cat'' ''cat'' = 1 / 20"
  by code_simp

text \<open>
  The claim as stated fails for a query with a repeated word: the code divides by the
  three words of the query, the claim by its two distinct words.
\<close>

theorem record_score_heuristic_counterexample:
  "record_score ''the the cat'' None ''cat'' None = 1 / 30
   \<and> heuristic_score_spec ''the the cat'' ''cat'' = 1 / 20"
  by (simp add: record_score_def heuristic_the_the_cat spec_the_the_cat)

subsection \<open>Embeddings of the wrong dimension\<close>

lemma stored_embedding_rejected:
  assumes "embedding_fn self = Some f" and "embedding_dim self = Some d" and "d \<noteq> 0"
    and "f t = None \<or> (\<exists>e. f t = Some e \<and> int (length e) \<noteq> d)"
  shows "stored_embedding self t = None"
  using assms by (auto simp: stored_embedding_def)

lemma dim_vectors:
  "vectors dim_store = [(''turn:s1:0'', ''s1'', ''alice likes chess'', Some [1, 0], 1)]"
  by (simp add: dim_store_def add_conversation_turn_def MemoryStore_init_def
      stored_embedding_def short_embedder_def Let_def str_of_nat_0 del: str_of_nat.simps)

lemma dim_query_embedding: "query_embedding dim_store ''alice'' = Some [1]"
  by (simp add: dim_store_def add_conversation_turn_def MemoryStore_init_def
      query_embedding_def short_embedder_def Let_def)

lemma dim_dimension: "embedding_dim dim_store = Some 2"
  by (simp add: dim_store_def add_conversation_turn_def MemoryStore_init_def Let_def)

text \<open>
  Claim C4 at the failing input. The store has dimension 2 and one record, stored with
  its embedding of length 2. The embedder answers the query \<^verbatim>\<open>alice\<close> with a vector
  of length 1. \<^verbatim>\<open>query_memory\<close> keeps that vector, the cosine of vectors of different
  lengths is 0, and the record is dropped: the result is empty. With the query embedding
  absent, as the claim has it, the substring score 1 returns the record.
\<close>

theorem query_memory_wrong_dimension:
  "embedding_dim dim_store = Some 2
   \<and> vectors dim_store = [(''turn:s1:0'', ''s1'', ''alice likes chess'', Some [1, 0], 1)]
   \<and> query_embedding dim_store ''alice'' = Some [1]
   \<and> query_memory dim_store ''alice'' None 5 = []
   \<and> query_memory (dim_store\<lparr>embedding_fn := None\<rparr>) ''alice'' None 5 =
       [\<lparr>hit_id = ''turn:s1:0'', owner = ''s1'', hit_text = ''alice likes chess'', score = 1,
         timestamp = 1\<rparr>]"
proof -
  have "query_memory dim_store ''alice'' None 5 = []"
    by (simp add: query_memory_def dim_vectors dim_query_embedding record_score_def
        cosine_similarity_def sort_by_score_desc_def slice_to_def)
  moreover have "query_embedding (dim_store\<lparr>embedding_fn := None\<rparr>) ''alice'' = None"
    by (simp add: query_embedding_def)
  then have "query_memory (dim_store\<lparr>embedding_fn := None\<rparr>) ''alice'' None 5 =
       [\<lparr>hit_id = ''turn:s1:0'', owner = ''s1'', hit_text = ''alice likes chess'', score = 1,
         timestamp = 1\<rparr>]"
    by (simp add: query_memory_def dim_vectors record_score_def heuristic_alice_chess
        sort_by_score_desc_def slice_to_def)
  ultimately show ?thesis
    by (simp add: dim_dimension dim_vectors dim_query_embedding)
qed

subsection \<open>Decomposition of a problem\<close>

lemma strip_parts:
  "map strip (filter (\<lambda>p. strip p \<noteq> []) ps) = filter (\<lambda>p. p \<noteq> []) (map strip ps)"
  by (induction ps) auto

lemma decompose_loop_spec:
  "decompose_loop steps sents =
     steps @ concat (map sentence_steps (filter (\<lambda>s. s \<noteq> []) (map strip sents)))"
proof (induction sents arbitrary: steps)
  case Nil
  show ?case by simp
next
  case (Cons s0 sents)
  show ?case
    by (simp add: Cons.IH sentence_steps_def strip_parts Let_def)
qed

lemma decompose_problem_spec:
  "decompose_problem problem rag_ctx = rag_hint rag_ctx @ decomposition_spec problem"
  by (simp add: decompose_problem_def decompose_loop_spec decomposition_spec_def rag_hint_def
      Let_def)

lemma decompose_area: 
  "decompose_problem ''Find area, then find perimeter'' [] =
     [''Find area'', ''then find perimeter'']"
  by code_simp

lemma decompose_solve:
  "decompose_problem ''Solve x+2=5 for x.'' [] = [''Solve x+2=5 for x.'']"
  by code_simp

lemma strip_solve: "strip ''Solve x+2=5 for x.'' = ''Solve x+2=5 for x.''"
  by code_simp

text \<open>
  Claim C6. \<^verbatim>\<open>_decompose_problem\<close> returns, after the hint from the retrieval context
  when there is one, the steps of the trimmed non-empty sentences in sentence order: a
  sentence with a character of \<^verbatim>\<open>0-9 = + - * / ^ ( )\<close> is one step, also when it has
  commas; another sentence with a comma gives its trimmed non-empty comma parts; any
  other sentence is one step. Without retrieval context the two examples of the
  specification give two steps and one step.
\<close>

theorem decompose_problem_steps:
  "decompose_problem problem rag_ctx = rag_hint rag_ctx @ decomposition_spec problem
   \<and> decompose_problem problem [] = decomposition_spec problem
   \<and> (has_equation s \<longrightarrow> sentence_steps s = [s])
   \<and> decompose_problem ''Find area, then find perimeter'' [] =
       [''Find area'', ''then find perimeter'']
   \<and> decompose_problem ''Solve x+2=5 for x.'' [] = [strip ''Solve x+2=5 for x.'']"
proof -
  have general: "decompose_problem problem rag_ctx = rag_hint rag_ctx @ decomposition_spec problem"
    by (rule decompose_problem_spec)
  have plain: "decompose_problem problem [] = decomposition_spec problem"
    by (simp add: decompose_problem_spec rag_hint_def)
  have atomic: "has_equation s \<longrightarrow> sentence_steps s = [s]"
    by (simp add: sentence_steps_def)
  have solve: "decompose_problem ''Solve x+2=5 for x.'' [] = [strip ''Solve x+2=5 for x.'']"
    by (simp only: decompose_solve strip_solve)
  from general plain atomic decompose_area solve show ?thesis
    by (intro conjI)
qed

lemma has_equation_example: "has_equation ''x = 1, y = 2''"
  by code_simp

lemma decompose_example:
  "decomposition_spec ''Given x = 1, y = 2. Find a, b!  Done'' =
     [''Given x = 1, y = 2.'', ''Find a'', ''b!'', ''Done'']"
  by code_simp

theorem decompose_problem_steps_witness:
  "has_equation ''x = 1, y = 2''
   \<and> sentence_steps ''x = 1, y = 2'' = [''x = 1, y = 2'']
   \<and> decompose_problem ''Given x = 1, y = 2. Find a, b!  Done'' ''ctx'' =
       [''Consult relevant formulas and proofs: ctx'',
        ''Given x = 1, y = 2.'', ''Find a'', ''b!'', ''Done'']"
  using decompose_problem_steps
    [of "''Given x = 1, y = 2. Find a, b!  Done''" "''ctx''" "''x = 1, y = 2''"]
  by (simp add: has_equation_example decompose_example rag_hint_def replace_char_def)

subsection \<open>The verification loop of the planner\<close>

lemma verify_steps_off:
  "verify_steps sympy_eval False vs steps =
     (map (\<lambda>st. \<lparr>step = st, verification = None\<rparr>) steps, vs, [])"
  by (induction steps) auto

lemma verify_steps_on:
  "verify_steps sympy_eval True vs steps =
     (map (\<lambda>(st, answer). \<lparr>step = st, verification = recorded answer\<rparr>)
        (zip steps (responses sympy_eval vs steps)),
      final_state sympy_eval vs steps, steps)"
proof (induction steps arbitrary: vs)
  case Nil
  show ?case by simp
next
  case (Cons st rest)
  obtain answer vs' where a: "sympy_eval vs st = (answer, vs')"
    by (cases "sympy_eval vs st") auto
  show ?case
    by (simp add: a Cons.IH recorded_def)
qed

lemma length_responses: "length (responses sympy_eval vs steps) = length steps"
  by (induction steps arbitrary: vs) (auto split: prod.splits)

lemma plan_off:
  "plan self sympy_eval vs problem user_id False start finish =
     (\<lparr>out_problem = problem,
       out_rag_context = fst (build_rag_context (rag self) problem user_id 3 3),
       out_plan = map (\<lambda>st. \<lparr>step = st, verification = None\<rparr>)
                    (planned_steps self problem user_id),
       out_duration = finish - start\<rparr>,
      self\<lparr>rag := snd (build_rag_context (rag self) problem user_id 3 3)\<rparr>, vs, [])"
  by (simp add: plan_def verify_steps_off planned_steps_def split: prod.splits)

text \<open>
  Claim C7. With \<^verbatim>\<open>verify=False\<close> the call log of the Verifier is empty and its state
  is the one before the call, every step of the plan has no verification, the plan holds
  the decomposed steps, and the returned plan and planner are the same for any two
  Verifiers, whatever their states.
\<close>

theorem plan_never_verifies:
  "snd (snd (plan self sympy_eval vs problem user_id False start finish)) = (vs, [])
   \<and> list_all (\<lambda>s. verification s = None)
        (out_plan (fst (plan self sympy_eval vs problem user_id False start finish)))
   \<and> map step (out_plan (fst (plan self sympy_eval vs problem user_id False start finish)))
       = planned_steps self problem user_id
   \<and> fst (plan self sympy_eval vs problem user_id False start finish)
       = fst (plan self other_eval ws problem user_id False start finish)
   \<and> fst (snd (plan self sympy_eval vs problem user_id False start finish))
       = fst (snd (plan self other_eval ws problem user_id False start finish))"
  by (simp add: plan_off list_all_iff comp_def)

lemma empty_context:
  "build_rag_context (rag empty_planner) q None 3 3 = ([], rag empty_planner)"
  by (simp add: empty_planner_def ReActPlanner_init_def RAGManager_init_def
      MemoryStore_init_def build_rag_context_def retrieve_def collect_hits_def
      query_memory_def query_embedding_def sort_by_score_desc_def slice_to_def)

lemma empty_planned:
  "planned_steps empty_planner ''Find area, then find perimeter'' None =
     [''Find area'', ''then find perimeter'']"
  by (simp add: planned_steps_def empty_context decompose_area)

theorem plan_never_verifies_witness:
  "snd (snd (plan empty_planner counting_verifier 0 ''Find area, then find perimeter'' None
               False 0 1)) = (0, [])
   \<and> map step (out_plan (fst (plan empty_planner counting_verifier 0
        ''Find area, then find perimeter'' None False 0 1)))
       = [''Find area'', ''then find perimeter'']
   \<and> fst (plan empty_planner counting_verifier 0 ''Find area, then find perimeter'' None
            False 0 1)
       = fst (plan empty_planner silent_verifier () ''Find area, then find perimeter'' None
                False 0 1)"
  using plan_never_verifies [of empty_planner counting_verifier 0
      "''Find area, then find perimeter''" None 0 1 silent_verifier "()"]
  unfolding empty_planned by blast

lemma plan_on:
  "plan self sympy_eval vs problem user_id True start finish =
     (\<lparr>out_problem = problem,
       out_rag_context = fst (build_rag_context (rag self) problem user_id 3 3),
       out_plan = map (\<lambda>(st, answer). \<lparr>step = st, verification = recorded answer\<rparr>)
                    (zip (planned_steps self problem user_id)
                       (responses sympy_eval vs (planned_steps self problem user_id))),
       out_duration = finish - start\<rparr>,
      self\<lparr>rag := snd (build_rag_context (rag self) problem user_id 3 3)\<rparr>,
      final_state sympy_eval vs (planned_steps self problem user_id),
      planned_steps self problem user_id)"
  by (simp add: plan_def verify_steps_on planned_steps_def split: prod.splits)

lemma map_step_zip:
  "length answers = length steps \<Longrightarrow>
     map step (map (\<lambda>(st, answer). \<lparr>step = st, verification = recorded answer\<rparr>)
                 (zip steps answers)) = steps"
  by (induction steps answers rule: list_induct2') auto

lemma map_verification_zip:
  "length answers = length steps \<Longrightarrow>
     map verification (map (\<lambda>(st, answer). \<lparr>step = st, verification = recorded answer\<rparr>)
                         (zip steps answers)) = map recorded answers"
  by (induction steps answers rule: list_induct2') auto

text \<open>
  Claim C8. With \<^verbatim>\<open>verify=True\<close> the Verifier is called once for every decomposed
  step, with the text of the step and in step order; the plan holds every decomposed
  step, whatever the Verifier answers; and the verification of a step is the tool name
  with the result when the call returned, and the tool name with the error message when
  the call raised.
\<close>

theorem plan_verifies_each_step:
  "snd (snd (snd (plan self sympy_eval vs problem user_id True start finish)))
       = planned_steps self problem user_id
   \<and> map step (out_plan (fst (plan self sympy_eval vs problem user_id True start finish)))
       = planned_steps self problem user_id
   \<and> map verification
        (out_plan (fst (plan self sympy_eval vs problem user_id True start finish)))
       = map recorded (responses sympy_eval vs (planned_steps self problem user_id))
   \<and> recorded (Inr r) = Some (Result ''sympy'' r)
   \<and> recorded (Inl e) = Some (Error ''sympy'' e)"
proof -
  let ?steps = "planned_steps self problem user_id"
  let ?out = "fst (plan self sympy_eval vs problem user_id True start finish)"
  have out: "out_plan ?out =
      map (\<lambda>(st, answer). \<lparr>step = st, verification = recorded answer\<rparr>)
        (zip ?steps (responses sympy_eval vs ?steps))"
    by (simp add: plan_on)
  have calls: "snd (snd (snd (plan self sympy_eval vs problem user_id True start finish)))
      = ?steps"
    by (simp add: plan_on)
  have steps: "map step (out_plan ?out) = ?steps"
    unfolding out by (rule map_step_zip) (rule length_responses)
  have verifs: "map verification (out_plan ?out) = map recorded (responses sympy_eval vs ?steps)"
    unfolding out by (rule map_verification_zip) (rule length_responses)
  have ok: "recorded (Inr r) = Some (Result ''sympy'' r)"
    and err: "recorded (Inl e) = Some (Error ''sympy'' e)"
    by (simp_all add: recorded_def)
  from calls steps verifs ok err show ?thesis
    by (intro conjI)
qed

theorem plan_verifies_each_step_witness:
  "snd (snd (snd (plan empty_planner counting_verifier 0 ''Find area, then find perimeter''
                    None True 0 1)))
       = [''Find area'', ''then find perimeter'']
   \<and> out_plan (fst (plan empty_planner counting_verifier 0 ''Find area, then find perimeter''
                      None True 0 1))
       = [\<lparr>step = ''Find area'', verification = Some (Error ''sympy'' ''cannot parse'')\<rparr>,
          \<lparr>step = ''then find perimeter'', verification = Some (Result ''sympy'' ''ok'')\<rparr>]"
  using plan_verifies_each_step [of empty_planner counting_verifier 0
      "''Find area, then find perimeter''" None 0 1 "''ok''" "''cannot parse''"]
  by (simp add: plan_on empty_planned counting_verifier_def recorded_def)

subsection \<open>State effect of retrieval\<close>

lemma get_user_store_manager:
  "snd (get_user_store self uid) =
     (if user_stores self uid = None
      then self\<lparr>user_stores := (user_stores self)(uid \<mapsto> fresh_user_store self)\<rparr>
      else self)"
  by (simp add: get_user_store_def fresh_user_store_def Let_def split: option.splits)

lemma retrieve_manager:
  "snd (retrieve self query user_id kg ku) =
     (if new_user self user_id
      then self\<lparr>user_stores := (user_stores self)(the user_id \<mapsto> fresh_user_store self)\<rparr>
      else self)"
proof (cases "truthy user_id")
  case False
  then show ?thesis
    by (simp add: retrieve_def collect_hits_def new_user_def Let_def split: prod.splits)
next
  case True
  have "snd (retrieve self query user_id kg ku) = snd (get_user_store self (the user_id))"
    using True by (simp add: retrieve_def collect_hits_def Let_def split: prod.splits)
  then show ?thesis
    using True by (simp add: get_user_store_manager new_user_def)
qed

lemma fresh_user_store_empty:
  "vectors (fresh_user_store self) = []
   \<and> conversations (fresh_user_store self) = Map.empty
   \<and> profiles (fresh_user_store self) = Map.empty
   \<and> embedding_fn (fresh_user_store self) = embedding_fn (global_store self)
   \<and> embedding_dim (fresh_user_store self) = embedding_dim (global_store self)"
  by (simp add: fresh_user_store_def MemoryStore_init_def)

text \<open>
  Claim C10, as the code has it. \<^verbatim>\<open>retrieve\<close> leaves the global store as it was and
  every per-user store that exists as it was. The map of per-user stores changes only
  when the user id is present, not empty and has no store yet: then it gains, under that
  user id, a store without records, turns or profiles that has the embedder and the
  dimension of the global store. An absent or empty user id inserts nothing. A later call
  for the same user id changes nothing more.
\<close>

theorem retrieve_frame:
  "global_store (snd (retrieve self query user_id kg ku)) = global_store self
   \<and> (\<forall>u st. user_stores self u = Some st \<longrightarrow>
          user_stores (snd (retrieve self query user_id kg ku)) u = Some st)
   \<and> user_stores (snd (retrieve self query user_id kg ku)) =
       (if new_user self user_id
        then (user_stores self)(the user_id \<mapsto> fresh_user_store self)
        else user_stores self)
   \<and> vectors (fresh_user_store self) = []
   \<and> conversations (fresh_user_store self) = Map.empty
   \<and> profiles (fresh_user_store self) = Map.empty
   \<and> snd (retrieve (snd (retrieve self query user_id kg ku)) query' user_id kg' ku')
       = snd (retrieve self query user_id kg ku)"
proof -
  have g: "global_store (snd (retrieve self query user_id kg ku)) = global_store self"
    by (simp add: retrieve_manager)
  have old: "\<forall>u st. user_stores self u = Some st \<longrightarrow>
          user_stores (snd (retrieve self query user_id kg ku)) u = Some st"
    by (auto simp: retrieve_manager new_user_def)
  have us: "user_stores (snd (retrieve self query user_id kg ku)) =
       (if new_user self user_id
        then (user_stores self)(the user_id \<mapsto> fresh_user_store self)
        else user_stores self)"
    by (simp add: retrieve_manager)
  have again: "\<not> new_user (snd (retrieve self query user_id kg ku)) user_id"
    by (auto simp: retrieve_manager new_user_def)
  have idem: "snd (retrieve (snd (retrieve self query user_id kg ku)) query' user_id kg' ku')
       = snd (retrieve self query user_id kg ku)"
    using again by (simp add: retrieve_manager [of "snd (retrieve self query user_id kg ku)"])
  from g old us fresh_user_store_empty idem show ?thesis
    by (intro conjI) blast+
qed

lemma add_turn_fn:
  "embedding_fn (add_conversation_turn st c rl t ts_arg now) = embedding_fn st
   \<and> embedding_dim (add_conversation_turn st c rl t ts_arg now) = embedding_dim st"
  by (simp add: add_conversation_turn_def Let_def)

lemma alice_global:
  "global_store alice_manager =
     add_conversation_turn (MemoryStore_init None None) ''global'' ''system''
       ''pythag: a^2+b^2=c^2'' (Some 1) 0"
  by (simp add: alice_manager_def add_user_document_def get_user_store_def
      add_global_document_def RAGManager_init_def Let_def split: option.splits)

lemma alice_stores: "user_stores alice_manager = [''alice'' \<mapsto> alice_store]"
  by (simp add: alice_manager_def add_user_document_def get_user_store_def
      add_global_document_def RAGManager_init_def alice_store_def add_turn_fn
      MemoryStore_init_def Let_def)

lemma alice_user: "user_stores alice_manager ''alice'' = Some alice_store"
  by (simp add: alice_stores)

lemma alice_fresh: "fresh_user_store alice_manager = MemoryStore_init None None"
  by (simp add: fresh_user_store_def alice_global add_turn_fn MemoryStore_init_def)

theorem retrieve_frame_witness:
  "global_store (snd (retrieve alice_manager ''a^2'' (Some ''bob'') 3 3))
     = global_store alice_manager
   \<and> user_stores (snd (retrieve alice_manager ''a^2'' (Some ''bob'') 3 3))
       = [''alice'' \<mapsto> alice_store, ''bob'' \<mapsto> MemoryStore_init None None]
   \<and> user_stores (snd (retrieve alice_manager ''a^2'' (Some ''alice'') 3 3))
       = [''alice'' \<mapsto> alice_store]
   \<and> user_stores (snd (retrieve alice_manager ''a^2'' None 3 3))
       = [''alice'' \<mapsto> alice_store]"
  using retrieve_frame [of alice_manager "''a^2''" "Some ''bob''" 3 3]
    retrieve_frame [of alice_manager "''a^2''" "Some ''alice''" 3 3]
    retrieve_frame [of alice_manager "''a^2''" None 3 3]
  by (simp add: new_user_def alice_stores alice_fresh)

text \<open>
  The claim as stated fails for the empty user id: it has never been seen, it is an id
  that \<^verbatim>\<open>add_user_document\<close> accepts, and \<^verbatim>\<open>retrieve\<close> inserts no store for it.
\<close>

theorem retrieve_empty_user_counterexample:
  "user_stores alice_manager [] = None
   \<and> user_stores (snd (retrieve alice_manager ''a^2'' (Some []) 3 3)) [] = None
   \<and> user_stores (add_user_document alice_manager [] ''n'' ''note'' (Some 3) 0) [] \<noteq> None"
  by (simp add: retrieve_manager new_user_def alice_stores add_user_document_def
      get_user_store_def Let_def)

subsection \<open>Merging global and user hits\<close>

lemma merge_unique_text:
  "filter (\<lambda>r. hit_text r = t) (merge_unique seen rs) =
     (if t \<in> seen then [] else take 1 (filter (\<lambda>r. hit_text r = t) rs))"
proof (induction rs arbitrary: seen)
  case Nil
  show ?case by simp
next
  case (Cons r rs)
  show ?case
  proof (cases "hit_text r \<in> seen")
    case True
    then show ?thesis using Cons.IH [of seen] by auto
  next
    case False
    then show ?thesis using Cons.IH [of "insert (hit_text r) seen"] by auto
  qed
qed

lemma merge_unique_subset: "set (merge_unique seen rs) \<subseteq> set rs"
proof (induction rs arbitrary: seen)
  case Nil
  show ?case by simp
next
  case (Cons r rs)
  show ?case
    using Cons.IH [of seen] Cons.IH [of "insert (hit_text r) seen"] by auto
qed

lemma merge_unique_fresh: "r \<in> set (merge_unique seen rs) \<Longrightarrow> hit_text r \<notin> seen"
proof (induction rs arbitrary: seen)
  case Nil
  then show ?case by simp
next
  case (Cons a rs)
  show ?case
  proof (cases "hit_text a \<in> seen")
    case True
    then show ?thesis using Cons.prems Cons.IH [of seen] by simp
  next
    case False
    then show ?thesis
      using Cons.prems Cons.IH [of "insert (hit_text a) seen"] by auto
  qed
qed

lemma merge_unique_distinct: "distinct (map hit_text (merge_unique seen rs))"
proof (induction rs arbitrary: seen)
  case Nil
  show ?case by simp
next
  case (Cons a rs)
  show ?case
  proof (cases "hit_text a \<in> seen")
    case True
    then show ?thesis using Cons.IH [of seen] by simp
  next
    case False
    have "hit_text a \<notin> hit_text ` set (merge_unique (insert (hit_text a) seen) rs)"
    proof
      assume "hit_text a \<in> hit_text ` set (merge_unique (insert (hit_text a) seen) rs)"
      then obtain x where x: "x \<in> set (merge_unique (insert (hit_text a) seen) rs)"
        and xa: "hit_text x = hit_text a"
        by auto
      from merge_unique_fresh [OF x] xa show False by simp
    qed
    then show ?thesis
      using False Cons.IH [of "insert (hit_text a) seen"] by simp
  qed
qed

lemma merge_unique_sorted:
  "sorted_wrt P rs \<Longrightarrow> sorted_wrt P (merge_unique seen rs)"
proof (induction rs arbitrary: seen)
  case Nil
  show ?case by simp
next
  case (Cons a rs)
  have tl: "sorted_wrt P rs" and hd: "\<forall>x \<in> set rs. P a x"
    using Cons.prems by simp_all
  show ?case
  proof (cases "hit_text a \<in> seen")
    case True
    then show ?thesis using Cons.IH [OF tl, of seen] by simp
  next
    case False
    have "\<forall>x \<in> set (merge_unique (insert (hit_text a) seen) rs). P a x"
      using hd merge_unique_subset [of "insert (hit_text a) seen" rs] by blast
    then show ?thesis
      using False Cons.IH [OF tl, of "insert (hit_text a) seen"] by simp
  qed
qed

lemma sorted_desc_hd:
  assumes "sorted_wrt (\<lambda>a b. score b \<le> score a) xs" and "x \<in> set xs"
  shows "score x \<le> score (hd xs)"
  using assms by (cases xs) auto

lemma hd_filter_same: "xs \<noteq> [] \<Longrightarrow> P (hd xs) \<Longrightarrow> hd (filter P xs) = hd xs"
  by (cases xs) auto

lemma filter_swap: "filter P (filter Q xs) = filter Q (filter P xs)"
  by (induction xs) auto

lemma tag_fields:
  "hit_text (tag src r) = hit_text r \<and> score (tag src r) = score r \<and> source (tag src r) = src"
  by (simp add: tag_def)

lemma truncate_tag: "hit.truncate (tag src r) = r"
  by (simp add: tag_def hit.truncate_def)

lemma retrieve_known_user:
  assumes "user_stores self uid = Some ustore" and "uid \<noteq> []"
  shows "fst (retrieve self query (Some uid) kg ku) =
     merge_unique {}
       (sort_by_score_desc
          (map (tag ''global'') (query_memory (global_store self) query (Some ''global'') kg)
           @ map (tag ''user'') (query_memory ustore query (Some (''user:'' @ uid)) ku)))"
  using assms by (simp add: retrieve_def collect_hits_def get_user_store_def Let_def)

text \<open>
  The hit that survives for a text, when a global hit \<open>g\<close> has that text: it scores at
  least as \<open>g\<close>, and when it scores as \<open>g\<close> it is a global hit.
\<close>

lemma first_of_text:
  fixes G U :: "rag_hit list"
  assumes gG: "tg \<in> set G" and t: "hit_text tg = t"
  defines "F \<equiv> filter (\<lambda>r. hit_text r = t) (sort_by_score_desc (G @ U))"
  shows "filter (\<lambda>r. hit_text r = t) (merge_unique {} (sort_by_score_desc (G @ U))) = [hd F]"
    and "hd F \<in> set (G @ U)" and "hit_text (hd F) = t"
    and "score tg \<le> score (hd F)"
    and "score (hd F) = score tg \<Longrightarrow> hd F \<in> set G"
proof -
  let ?S = "sort_by_score_desc (G @ U)"
  have tgF: "tg \<in> set F"
    using gG t by (simp add: F_def sort_by_score_desc_set)
  have ne: "F \<noteq> []"
  proof
    assume e: "F = []"
    from tgF show False unfolding e by simp
  qed
  have "filter (\<lambda>r. hit_text r = t) (merge_unique {} ?S) = take 1 F"
    by (simp add: merge_unique_text F_def)
  also have "\<dots> = [hd F]"
    using ne by (cases F) auto
  finally show "filter (\<lambda>r. hit_text r = t) (merge_unique {} ?S) = [hd F]" .
  have hdF: "hd F \<in> set F"
    using ne by (rule hd_in_set)
  then show "hd F \<in> set (G @ U)" and "hit_text (hd F) = t"
    by (auto simp: F_def sort_by_score_desc_set)
  have sortedF: "sorted_wrt (\<lambda>a b. score b \<le> score a) F"
    unfolding F_def by (rule sorted_wrt_filter) (rule sort_by_score_desc_sorted)
  show "score tg \<le> score (hd F)"
    using sortedF tgF by (rule sorted_desc_hd)
  show "hd F \<in> set G" if eq: "score (hd F) = score tg"
  proof -
    let ?s = "score tg"
    let ?E = "filter (\<lambda>r. score r = ?s) F"
    have "hd ?E = hd F"
      using ne eq by (rule hd_filter_same)
    moreover have "?E = filter (\<lambda>r. hit_text r = t) (filter (\<lambda>r. score r = ?s) ?S)"
      unfolding F_def by (rule filter_swap)
    then have E: "?E = filter (\<lambda>r. hit_text r = t) (filter (\<lambda>r. score r = ?s) G)
                      @ filter (\<lambda>r. hit_text r = t) (filter (\<lambda>r. score r = ?s) U)"
      by (simp add: sort_by_score_desc_stable)
    have tgE: "tg \<in> set (filter (\<lambda>r. hit_text r = t) (filter (\<lambda>r. score r = ?s) G))"
      using gG t by simp
    have neG: "filter (\<lambda>r. hit_text r = t) (filter (\<lambda>r. score r = ?s) G) \<noteq> []"
    proof
      assume e: "filter (\<lambda>r. hit_text r = t) (filter (\<lambda>r. score r = ?s) G) = []"
      from tgE show False unfolding e by simp
    qed
    then have "hd ?E = hd (filter (\<lambda>r. hit_text r = t) (filter (\<lambda>r. score r = ?s) G))"
      unfolding E by simp
    moreover have "hd (filter (\<lambda>r. hit_text r = t) (filter (\<lambda>r. score r = ?s) G))
        \<in> set (filter (\<lambda>r. hit_text r = t) (filter (\<lambda>r. score r = ?s) G))"
      using neG by (rule hd_in_set)
    ultimately show ?thesis by simp
  qed
qed

text \<open>
  Claim C1, as the code has it. Let a global hit \<open>g\<close> and a user hit \<open>u\<close> of the query,
  that is, records that passed the score filter and the top-k cut of their store, have
  the same text and the same score. \<^verbatim>\<open>retrieve\<close> returns the de-duplication of the
  stable descending sort of the global hits followed by the user hits: the result is
  ordered by score, descending, no text occurs twice, and every returned hit is a global
  hit with source \<^verbatim>\<open>global\<close> or a user hit with source \<^verbatim>\<open>user\<close>. Exactly one
  returned hit has the text of the pair. It scores at least as the pair; when it scores
  as the pair it is a global hit with source \<^verbatim>\<open>global\<close>; and it is never the user hit
  \<open>u\<close>. When no hit of that text scores above the pair, its source is \<^verbatim>\<open>global\<close>.
\<close>

theorem retrieve_global_wins_tie:
  assumes ust: "user_stores self uid = Some ustore" and uid: "uid \<noteq> []"
    and g: "g \<in> set (global_hits self query kg)"
    and u: "u \<in> set (user_hits ustore uid query ku)"
    and same_text: "hit_text g = hit_text u" and same_score: "score g = score u"
  shows "fst (retrieve self query (Some uid) kg ku) =
      merge_unique {}
        (sort_by_score_desc
           (map (tag ''global'') (global_hits self query kg)
            @ map (tag ''user'') (user_hits ustore uid query ku)))
    \<and> sorted_wrt (\<lambda>a b. score b \<le> score a) (fst (retrieve self query (Some uid) kg ku))
    \<and> distinct (map hit_text (fst (retrieve self query (Some uid) kg ku)))
    \<and> (\<forall>r \<in> set (fst (retrieve self query (Some uid) kg ku)).
          hit.truncate r \<in> set (global_hits self query kg) \<and> source r = ''global''
          \<or> hit.truncate r \<in> set (user_hits ustore uid query ku) \<and> source r = ''user'')
    \<and> (\<exists>h. filter (\<lambda>r. hit_text r = hit_text u) (fst (retrieve self query (Some uid) kg ku)) = [h]
           \<and> score u \<le> score h
           \<and> (score h = score u \<longrightarrow>
                 source h = ''global'' \<and> hit.truncate h \<in> set (global_hits self query kg)))
    \<and> tag ''user'' u \<notin> set (fst (retrieve self query (Some uid) kg ku))
    \<and> ((\<forall>r \<in> set (global_hits self query kg) \<union> set (user_hits ustore uid query ku).
            hit_text r = hit_text u \<longrightarrow> score r \<le> score u) \<longrightarrow>
         (\<exists>h. filter (\<lambda>r. hit_text r = hit_text u) (fst (retrieve self query (Some uid) kg ku))
                 = [h]
              \<and> source h = ''global'' \<and> score h = score u))"
proof -
  let ?gh = "global_hits self query kg"
  let ?uh = "user_hits ustore uid query ku"
  let ?G = "map (tag ''global'') ?gh"
  let ?U = "map (tag ''user'') ?uh"
  let ?S = "sort_by_score_desc (?G @ ?U)"
  let ?R = "fst (retrieve self query (Some uid) kg ku)"
  let ?t = "hit_text u"
  let ?h = "hd (filter (\<lambda>r. hit_text r = ?t) ?S)"
  have res: "?R = merge_unique {} ?S"
    unfolding global_hits_def user_hits_def using ust uid by (rule retrieve_known_user)
  have sorted: "sorted_wrt (\<lambda>a b. score b \<le> score a) ?R"
    unfolding res by (rule merge_unique_sorted) (rule sort_by_score_desc_sorted)
  have dist: "distinct (map hit_text ?R)"
    unfolding res by (rule merge_unique_distinct)
  have origin: "hit.truncate r \<in> set ?gh \<and> source r = ''global''
      \<or> hit.truncate r \<in> set ?uh \<and> source r = ''user''" if "r \<in> set (?G @ ?U)" for r
  proof -
    from that consider x where "x \<in> set ?gh" "r = tag ''global'' x"
      | x where "x \<in> set ?uh" "r = tag ''user'' x"
      by auto
    then show ?thesis
      by cases (simp_all add: truncate_tag tag_fields)
  qed
  have sub: "set ?R \<subseteq> set (?G @ ?U)"
    unfolding res using merge_unique_subset [of "{}" ?S] by (simp add: sort_by_score_desc_set)
  have origins: "\<forall>r \<in> set ?R. hit.truncate r \<in> set ?gh \<and> source r = ''global''
      \<or> hit.truncate r \<in> set ?uh \<and> source r = ''user''"
    using sub origin by blast
  have tgG: "tag ''global'' g \<in> set ?G"
    using g by simp
  have tgt: "hit_text (tag ''global'' g) = ?t"
    using same_text by (simp add: tag_fields)
  have tgs: "score (tag ''global'' g) = score u"
    using same_score by (simp add: tag_fields)
  note first = first_of_text [OF tgG tgt, of ?U]
  have one: "filter (\<lambda>r. hit_text r = ?t) ?R = [?h]"
    unfolding res by (rule first(1))
  have hin: "?h \<in> set (?G @ ?U)" and ht: "hit_text ?h = ?t"
    by (rule first(2), rule first(3))
  have ge: "score u \<le> score ?h"
    using first(4) unfolding tgs .
  have tie: "source ?h = ''global'' \<and> hit.truncate ?h \<in> set ?gh" if "score ?h = score u"
  proof -
    have "?h \<in> set ?G"
      by (rule first(5)) (simp add: that tgs)
    then obtain x where "x \<in> set ?gh" "?h = tag ''global'' x"
      by auto
    then show ?thesis
      by (simp add: truncate_tag tag_fields)
  qed
  have pair: "\<exists>h. filter (\<lambda>r. hit_text r = ?t) ?R = [h] \<and> score u \<le> score h
      \<and> (score h = score u \<longrightarrow> source h = ''global'' \<and> hit.truncate h \<in> set ?gh)"
    using one ge tie by blast
  have notu: "tag ''user'' u \<notin> set ?R"
  proof
    assume "tag ''user'' u \<in> set ?R"
    then have "tag ''user'' u \<in> set (filter (\<lambda>r. hit_text r = ?t) ?R)"
      by (simp add: tag_fields)
    then have eq: "tag ''user'' u = ?h"
      unfolding one by simp
    have "score (tag ''user'' u) = score u" and src: "source (tag ''user'' u) = ''user''"
      by (simp_all add: tag_fields)
    then have "score ?h = score u"
      unfolding eq by simp
    then have "source ?h = ''global''"
      using tie by blast
    moreover have "source ?h = ''user''"
      using src unfolding eq .
    ultimately show False by simp
  qed
  have top: "\<exists>h. filter (\<lambda>r. hit_text r = ?t) ?R = [h] \<and> source h = ''global'' \<and> score h = score u"
    if best: "\<forall>r \<in> set ?gh \<union> set ?uh. hit_text r = ?t \<longrightarrow> score r \<le> score u"
  proof -
    from hin consider x where "x \<in> set ?gh" "?h = tag ''global'' x"
      | x where "x \<in> set ?uh" "?h = tag ''user'' x"
      by auto
    then have "score ?h \<le> score u"
    proof cases
      case 1
      then have "hit_text x = ?t" "score x = score ?h"
        using ht by (simp_all add: tag_fields)
      then show ?thesis using best 1(1) by auto
    next
      case 2
      then have "hit_text x = ?t" "score x = score ?h"
        using ht by (simp_all add: tag_fields)
      then show ?thesis using best 2(1) by auto
    qed
    then have "score ?h = score u"
      using ge by simp
    then show ?thesis
      using one tie by blast
  qed
  from res sorted dist origins pair notu top show ?thesis
    by (intro conjI impI) blast+
qed

lemma heuristic_pythag: "heuristic_score ''a^2'' ''pythag: a^2+b^2=c^2'' = 1"
  by code_simp

lemma alice_global_hits:
  "global_hits alice_manager ''a^2'' 3 =
     [\<lparr>hit_id = ''turn:global:0'', owner = ''global'', hit_text = ''pythag: a^2+b^2=c^2'',
       score = 1, timestamp = 1\<rparr>]"
  by (simp add: global_hits_def alice_global query_memory_def add_conversation_turn_def
      MemoryStore_init_def stored_embedding_def query_embedding_def record_score_def
      heuristic_pythag sort_by_score_desc_def slice_to_def Let_def str_of_nat_0
      del: str_of_nat.simps)

lemma alice_user_hits:
  "user_hits alice_store ''alice'' ''a^2'' 3 =
     [\<lparr>hit_id = ''turn:user:alice:0'', owner = ''user:alice'',
       hit_text = ''pythag: a^2+b^2=c^2'', score = 1, timestamp = 2\<rparr>]"
  by (simp add: user_hits_def alice_store_def query_memory_def add_conversation_turn_def
      MemoryStore_init_def stored_embedding_def query_embedding_def record_score_def
      heuristic_pythag sort_by_score_desc_def slice_to_def Let_def str_of_nat_0
      del: str_of_nat.simps)

lemma heuristic_the_cat: "heuristic_score ''the cat'' ''d: cat'' = 1 / 20"
  by code_simp

lemma cosine_unit: "cosine_similarity [1] [1] = 1"
  by (simp add: cosine_similarity_def)

lemma flaky_global_hits:
  "global_hits flaky_manager ''the cat'' 3 =
     [\<lparr>hit_id = ''turn:global:0'', owner = ''global'', hit_text = ''d: cat'',
       score = 1 / 20, timestamp = 1\<rparr>]"
  by (simp add: global_hits_def flaky_manager_def query_memory_def query_embedding_def
      unit_embedder_def record_score_def heuristic_the_cat sort_by_score_desc_def slice_to_def)

lemma flaky_user_hits:
  "user_hits flaky_store ''alice'' ''the cat'' 3 =
     [\<lparr>hit_id = ''turn:user:alice:1'', owner = ''user:alice'', hit_text = ''d: cat'',
       score = 1, timestamp = 3\<rparr>,
      \<lparr>hit_id = ''turn:user:alice:0'', owner = ''user:alice'', hit_text = ''d: cat'',
       score = 1 / 20, timestamp = 2\<rparr>]"
  by (simp add: user_hits_def flaky_store_def query_memory_def query_embedding_def
      unit_embedder_def record_score_def heuristic_the_cat cosine_unit sort_by_score_desc_def
      slice_to_def)

lemma flaky_user: "user_stores flaky_manager ''alice'' = Some flaky_store"
  by (simp add: flaky_manager_def)

text \<open>
  Two instances. In the first a global and a user document of equal text both score 1
  and the global hit is returned. In the second the pair scores 0.05 and a second user
  record of the same text, stored with an embedding, scores 1: the returned hit scores
  above the pair, and the user hit of the pair is not returned.
\<close>

theorem retrieve_global_wins_tie_witness:
  "(\<exists>h. filter (\<lambda>r. hit_text r = ''pythag: a^2+b^2=c^2'')
            (fst (retrieve alice_manager ''a^2'' (Some ''alice'') 3 3)) = [h]
        \<and> source h = ''global'' \<and> score h = 1)
   \<and> (\<exists>h. filter (\<lambda>r. hit_text r = ''d: cat'')
            (fst (retrieve flaky_manager ''the cat'' (Some ''alice'') 3 3)) = [h]
        \<and> 1 / 20 \<le> score h)
   \<and> tag ''user'' \<lparr>hit_id = ''turn:user:alice:0'', owner = ''user:alice'',
          hit_text = ''d: cat'', score = 1 / 20, timestamp = 2\<rparr>
        \<notin> set (fst (retrieve flaky_manager ''the cat'' (Some ''alice'') 3 3))"
proof -
  let ?g = "\<lparr>hit_id = ''turn:global:0'', owner = ''global'',
             hit_text = ''pythag: a^2+b^2=c^2'', score = 1, timestamp = 1\<rparr>"
  let ?u = "\<lparr>hit_id = ''turn:user:alice:0'', owner = ''user:alice'',
             hit_text = ''pythag: a^2+b^2=c^2'', score = 1, timestamp = 2\<rparr>"
  let ?fg = "\<lparr>hit_id = ''turn:global:0'', owner = ''global'', hit_text = ''d: cat'',
              score = 1 / 20, timestamp = 1\<rparr>"
  let ?fu = "\<lparr>hit_id = ''turn:user:alice:0'', owner = ''user:alice'', hit_text = ''d: cat'',
              score = 1 / 20, timestamp = 2\<rparr>"
  have uid: "''alice'' \<noteq> []"
    by simp
  have g: "?g \<in> set (global_hits alice_manager ''a^2'' 3)"
    and u: "?u \<in> set (user_hits alice_store ''alice'' ''a^2'' 3)"
    by (simp_all add: alice_global_hits alice_user_hits)
  have tie: "hit_text ?g = hit_text ?u" "score ?g = score ?u"
    by simp_all
  have best: "\<forall>r \<in> set (global_hits alice_manager ''a^2'' 3)
                 \<union> set (user_hits alice_store ''alice'' ''a^2'' 3).
             hit_text r = hit_text ?u \<longrightarrow> score r \<le> score ?u"
    by (simp add: alice_global_hits alice_user_hits)
  note one = retrieve_global_wins_tie [OF alice_user uid g u tie]
  have first: "\<exists>h. filter (\<lambda>r. hit_text r = ''pythag: a^2+b^2=c^2'')
            (fst (retrieve alice_manager ''a^2'' (Some ''alice'') 3 3)) = [h]
        \<and> source h = ''global'' \<and> score h = 1"
    using one [THEN conjunct2, THEN conjunct2, THEN conjunct2, THEN conjunct2, THEN conjunct2,
        THEN conjunct2, THEN mp, OF best]
    by simp
  have fg: "?fg \<in> set (global_hits flaky_manager ''the cat'' 3)"
    and fu: "?fu \<in> set (user_hits flaky_store ''alice'' ''the cat'' 3)"
    by (simp_all add: flaky_global_hits flaky_user_hits)
  have ftie: "hit_text ?fg = hit_text ?fu" "score ?fg = score ?fu"
    by simp_all
  note second = retrieve_global_wins_tie [OF flaky_user uid fg fu ftie]
  have higher: "\<exists>h. filter (\<lambda>r. hit_text r = ''d: cat'')
            (fst (retrieve flaky_manager ''the cat'' (Some ''alice'') 3 3)) = [h]
        \<and> 1 / 20 \<le> score h"
    using second [THEN conjunct2, THEN conjunct2, THEN conjunct2, THEN conjunct2,
        THEN conjunct1]
    by auto
  have dropped: "tag ''user'' ?fu \<notin> set (fst (retrieve flaky_manager ''the cat'' (Some ''alice'') 3 3))"
    using second [THEN conjunct2, THEN conjunct2, THEN conjunct2, THEN conjunct2,
        THEN conjunct2, THEN conjunct1]
    by simp
  from first higher dropped show ?thesis
    by (intro conjI)
qed

lemma flaky_retrieve:
  "map (\<lambda>r. (hit_id r, source r, score r))
     (fst (retrieve flaky_manager ''the cat'' (Some ''alice'') 3 3))
     = [(''turn:user:alice:1'', ''user'', 1)]"
proof -
  have "fst (retrieve flaky_manager ''the cat'' (Some ''alice'') 3 3) =
      merge_unique {}
        (sort_by_score_desc
           (map (tag ''global'') (global_hits flaky_manager ''the cat'' 3)
            @ map (tag ''user'') (user_hits flaky_store ''alice'' ''the cat'' 3)))"
    unfolding global_hits_def user_hits_def
    by (rule retrieve_known_user) (simp_all add: flaky_user)
  then show ?thesis
    by (simp add: flaky_global_hits flaky_user_hits tag_def sort_by_score_desc_def)
qed

lemma heuristic_cat_one: "heuristic_score ''cat'' ''d1: cat one'' = 1"
  by code_simp

lemma heuristic_cat_two: "heuristic_score ''cat'' ''d2: cat two'' = 1"
  by code_simp

lemma heuristic_cat_three: "heuristic_score ''cat'' ''d3: cat three'' = 1"
  by code_simp

lemma heuristic_cat_four: "heuristic_score ''cat'' ''d4: cat four'' = 1"
  by code_simp

lemma str_of_nat_2: "str_of_nat (Suc (Suc 0)) = ''2''"
  by code_simp

lemma str_of_nat_3: "str_of_nat (Suc (Suc (Suc 0))) = ''3''"
  by code_simp

lemma four_global_vectors:
  "vectors (global_store four_manager) =
     [(''turn:global:0'', ''global'', ''d1: cat one'', None, 1),
      (''turn:global:1'', ''global'', ''d2: cat two'', None, 2),
      (''turn:global:2'', ''global'', ''d3: cat three'', None, 3),
      (''turn:global:3'', ''global'', ''d4: cat four'', None, 4)]"
  by (simp add: four_manager_def add_user_document_def get_user_store_def
      add_global_document_def RAGManager_init_def add_conversation_turn_def
      MemoryStore_init_def stored_embedding_def Let_def str_of_nat_0 str_of_nat_1
      str_of_nat_2 str_of_nat_3 del: str_of_nat.simps split: option.splits)

lemma four_global_embedder: "query_embedding (global_store four_manager) q = None"
  by (simp add: query_embedding_def four_manager_def add_user_document_def get_user_store_def
      add_global_document_def RAGManager_init_def add_turn_fn MemoryStore_init_def Let_def
      split: option.splits)

lemma four_user: "user_stores four_manager ''alice'' = Some four_store"
  by (simp add: four_manager_def add_user_document_def get_user_store_def
      add_global_document_def RAGManager_init_def four_store_def add_turn_fn
      MemoryStore_init_def Let_def)

lemma four_global_hits_all:
  "global_hits four_manager ''cat'' 4 =
     [\<lparr>hit_id = ''turn:global:0'', owner = ''global'', hit_text = ''d1: cat one'', score = 1,
       timestamp = 1\<rparr>,
      \<lparr>hit_id = ''turn:global:1'', owner = ''global'', hit_text = ''d2: cat two'', score = 1,
       timestamp = 2\<rparr>,
      \<lparr>hit_id = ''turn:global:2'', owner = ''global'', hit_text = ''d3: cat three'', score = 1,
       timestamp = 3\<rparr>,
      \<lparr>hit_id = ''turn:global:3'', owner = ''global'', hit_text = ''d4: cat four'', score = 1,
       timestamp = 4\<rparr>]"
  by (simp add: global_hits_def query_memory_def four_global_vectors four_global_embedder
      record_score_def heuristic_cat_one heuristic_cat_two heuristic_cat_three
      heuristic_cat_four sort_by_score_desc_def slice_to_def)

lemma four_global_hits:
  "global_hits four_manager ''cat'' 3 =
     [\<lparr>hit_id = ''turn:global:0'', owner = ''global'', hit_text = ''d1: cat one'', score = 1,
       timestamp = 1\<rparr>,
      \<lparr>hit_id = ''turn:global:1'', owner = ''global'', hit_text = ''d2: cat two'', score = 1,
       timestamp = 2\<rparr>,
      \<lparr>hit_id = ''turn:global:2'', owner = ''global'', hit_text = ''d3: cat three'', score = 1,
       timestamp = 3\<rparr>]"
  by (simp add: global_hits_def query_memory_def four_global_vectors four_global_embedder
      record_score_def heuristic_cat_one heuristic_cat_two heuristic_cat_three
      heuristic_cat_four sort_by_score_desc_def slice_to_def)

lemma four_user_hits:
  "user_hits four_store ''alice'' ''cat'' 3 =
     [\<lparr>hit_id = ''turn:user:alice:0'', owner = ''user:alice'', hit_text = ''d4: cat four'',
       score = 1, timestamp = 5\<rparr>]"
  by (simp add: user_hits_def four_store_def query_memory_def add_conversation_turn_def
      MemoryStore_init_def stored_embedding_def query_embedding_def record_score_def
      heuristic_cat_four sort_by_score_desc_def slice_to_def Let_def str_of_nat_0
      del: str_of_nat.simps)

lemma four_retrieve:
  "fst (retrieve four_manager ''cat'' (Some ''alice'') 3 3) =
     merge_unique {}
       (sort_by_score_desc
          (map (tag ''global'') (global_hits four_manager ''cat'' 3)
           @ map (tag ''user'') (user_hits four_store ''alice'' ''cat'' 3)))"
  unfolding global_hits_def user_hits_def
  by (rule retrieve_known_user) (simp_all add: four_user)

text \<open>
  The claim as stated fails. The fourth global document and the user document have the
  same text, and both score 1 for the query \<^verbatim>\<open>cat\<close>. With the default bounds of 3
  the global query returns the three documents inserted before it, the user query returns
  the user document, and \<^verbatim>\<open>retrieve\<close> returns that text with source \<^verbatim>\<open>user\<close>.
\<close>

theorem retrieve_cut_off_counterexample:
  "map (\<lambda>h. (hit_text h, score h)) (global_hits four_manager ''cat'' 4) =
     [(''d1: cat one'', 1), (''d2: cat two'', 1), (''d3: cat three'', 1), (''d4: cat four'', 1)]
   \<and> user_stores four_manager ''alice'' = Some four_store
   \<and> map (\<lambda>h. (hit_text h, score h)) (user_hits four_store ''alice'' ''cat'' 3) =
       [(''d4: cat four'', 1)]
   \<and> map (\<lambda>r. (hit_text r, source r)) (fst (retrieve four_manager ''cat'' (Some ''alice'') 3 3)) =
       [(''d1: cat one'', ''global''), (''d2: cat two'', ''global''),
        (''d3: cat three'', ''global''), (''d4: cat four'', ''user'')]"
  by (simp add: four_global_hits_all four_user four_user_hits four_retrieve four_global_hits
      tag_def sort_by_score_desc_def)

end
